theory Spec2Isabelle
  imports Main "HOL-Library.Word"
begin

unbundle bit_operations_syntax

section \<open>HiddenOrderDEX: the encrypted order ledger\<close>

text \<open>
  A shallow embedding of the Solidity contract \<^verbatim>\<open>HiddenOrderDEX\<close>. Every public function
  of the contract is a HOL function from the pre-state (and \<^verbatim>\<open>msg.sender\<close>,
  \<^verbatim>\<open>block.timestamp\<close> where the body reads them) to either an error (the transaction
  reverts, the state is the pre-state) or the post-state with the events emitted.
\<close>

subsection \<open>Solidity value types\<close>

type_synonym uint256 = "256 word"
type_synonym uint32 = "32 word"
type_synonym uint8 = "8 word"
type_synonym address = "160 word"
type_synonym bytes = "8 word list"

subsection \<open>The ciphertext algebra\<close>

text \<open>
  Modelled from the spec: the ciphertext algebra (\<^verbatim>\<open>FHE\<close>, imported from
  \<^verbatim>\<open>@fhevm/solidity/lib/FHE.sol\<close>) is an external capability: "opaque encrypted
  integers and booleans supporting add, compare, conditional select, and a division".
  The model is the ideal functionality: a ciphertext is the plaintext it decrypts to,
  \<^verbatim>\<open>euint32\<close> holds a 32-bit unsigned integer, and every operation computes on the
  plaintexts what its name says. Addition is the addition of \<^verbatim>\<open>uint32\<close>: the result is
  again a \<^verbatim>\<open>euint32\<close>, so it is taken modulo \<open>2 ^ 32\<close>. An uninitialised handle
  (the default value of a storage slot) stands for the encryption of zero.
\<close>

datatype euint32 = Euint32 (plain32: uint32)
datatype ebool = Ebool (plainBool: bool)

fun FHE_asEuint32 :: "uint32 \<Rightarrow> euint32" where
  "FHE_asEuint32 v = Euint32 v"

fun FHE_asEbool :: "bool \<Rightarrow> ebool" where
  "FHE_asEbool b = Ebool b"

fun FHE_eq :: "euint32 \<Rightarrow> euint32 \<Rightarrow> ebool" where
  "FHE_eq (Euint32 a) (Euint32 b) = Ebool (a = b)"

fun FHE_gt :: "euint32 \<Rightarrow> euint32 \<Rightarrow> ebool" where
  "FHE_gt (Euint32 a) (Euint32 b) = Ebool (a > b)"

fun FHE_lt :: "euint32 \<Rightarrow> euint32 \<Rightarrow> ebool" where
  "FHE_lt (Euint32 a) (Euint32 b) = Ebool (a < b)"

fun FHE_ge :: "euint32 \<Rightarrow> euint32 \<Rightarrow> ebool" where
  "FHE_ge (Euint32 a) (Euint32 b) = Ebool (a \<ge> b)"

fun FHE_and :: "ebool \<Rightarrow> ebool \<Rightarrow> ebool" where
  "FHE_and (Ebool a) (Ebool b) = Ebool (a \<and> b)"

fun FHE_select :: "ebool \<Rightarrow> euint32 \<Rightarrow> euint32 \<Rightarrow> euint32" where
  "FHE_select (Ebool c) a b = (if c then a else b)"

fun FHE_add :: "euint32 \<Rightarrow> euint32 \<Rightarrow> euint32" where
  "FHE_add (Euint32 a) (Euint32 b) = Euint32 (a + b)"

text \<open>The contract only ever divides by the constant 2.\<close>

fun FHE_div :: "euint32 \<Rightarrow> euint32 \<Rightarrow> euint32" where
  "FHE_div (Euint32 a) (Euint32 b) = Euint32 (a div b)"

subsection \<open>Structs, storage and events\<close>

record EncryptedOrder =
  id_order :: uint256
  trader :: address
  encryptedPrice :: euint32
  encryptedAmount :: euint32
  encryptedType :: euint32  \<comment> \<open>0 = buy, 1 = sell\<close>
  timestamp :: uint256
  isActive :: bool

record MatchResult =
  buyOrderId :: uint256
  sellOrderId :: uint256
  matchPrice :: euint32  \<comment> \<open>\<^verbatim>\<open>MatchResult.encryptedPrice\<close>\<close>
  matchAmount :: euint32  \<comment> \<open>\<^verbatim>\<open>MatchResult.encryptedAmount\<close>\<close>
  isComplete :: bool

record DecryptedOrder =
  price :: uint32
  amount :: uint32
  orderType :: uint8
  isRevealed :: bool

text \<open>
  A Solidity mapping is total: a key that was never written reads as the zero value of
  the value type. The two order books are dynamic arrays.
\<close>

record state =
  orderCount :: uint256
  encryptedOrders :: "uint256 \<Rightarrow> EncryptedOrder"
  matchResults :: "uint256 \<Rightarrow> MatchResult"
  decryptedOrders :: "uint256 \<Rightarrow> DecryptedOrder"
  encryptedBuyPrices :: "euint32 list"
  encryptedSellPrices :: "euint32 list"
  requestToOrderId :: "uint256 \<Rightarrow> uint256"

definition zeroOrder :: EncryptedOrder where
  "zeroOrder = \<lparr>id_order = 0, trader = 0, encryptedPrice = Euint32 0,
     encryptedAmount = Euint32 0, encryptedType = Euint32 0, timestamp = 0,
     isActive = False\<rparr>"

definition zeroMatch :: MatchResult where
  "zeroMatch = \<lparr>buyOrderId = 0, sellOrderId = 0, matchPrice = Euint32 0,
     matchAmount = Euint32 0, isComplete = False\<rparr>"

definition zeroDecrypted :: DecryptedOrder where
  "zeroDecrypted = \<lparr>price = 0, amount = 0, orderType = 0, isRevealed = False\<rparr>"

definition init_state :: state where
  "init_state = \<lparr>orderCount = 0, encryptedOrders = (\<lambda>_. zeroOrder),
     matchResults = (\<lambda>_. zeroMatch), decryptedOrders = (\<lambda>_. zeroDecrypted),
     encryptedBuyPrices = [], encryptedSellPrices = [],
     requestToOrderId = (\<lambda>_. 0)\<rparr>"

datatype event =
    OrderSubmitted uint256 uint256
  | OrderMatched uint256 uint256
  | OrderRevealed uint256

text \<open>
  The ways a call reverts. The first six are the \<^verbatim>\<open>require\<close> messages of the contract,
  named by the error kind they stand for; \<open>ProofVerificationFailed\<close> is a revert inside
  \<^verbatim>\<open>FHE.checkSignatures\<close>, \<open>DecodeFailed\<close> one inside \<^verbatim>\<open>abi.decode\<close>, and \<open>Panic\<close> is
  Solidity's checked arithmetic or an array index out of bounds.
\<close>

datatype error =
    Unauthorized  \<comment> \<open>"Not order owner"\<close>
  | AlreadyRevealed  \<comment> \<open>"Already revealed"\<close>
  | InvalidRequestId  \<comment> \<open>"Invalid request"\<close>
  | InactiveOrder  \<comment> \<open>"Inactive orders"\<close>
  | NotActive  \<comment> \<open>"Order not active"\<close>
  | MatchNotComplete  \<comment> \<open>"Match not complete"\<close>
  | ProofVerificationFailed
  | DecodeFailed
  | Panic

text \<open>
  What the contract calls and does not define: the signature check of the decryption
  oracle and the ABI decoder, taken as parameters. \<open>abi_decode\<close> is
  \<^verbatim>\<open>abi.decode(cleartexts, (uint32[]))\<close>, \<open>None\<close> where it reverts.
\<close>

record env =
  FHE_checkSignatures :: "uint256 \<Rightarrow> bytes \<Rightarrow> bytes \<Rightarrow> bool"
  abi_decode :: "bytes \<Rightarrow> uint32 list option"

subsection \<open>keccak256 and abi.encodePacked\<close>

text \<open>
  \<^verbatim>\<open>keccak256\<close> is a builtin of the EVM. It is modelled executable, after the Keccak
  reference: the permutation Keccak-f[1600] (24 rounds of \<open>\<theta>\<close>, \<open>\<rho>\<close>, \<open>\<pi>\<close>, \<open>\<chi>\<close>, \<open>\<iota>\<close>)
  inside a sponge of rate 1088 with the original padding (no domain suffix).
\<close>

text \<open>A lane is 64 bits, least significant first.\<close>

type_synonym lane = "bool list"

fun xorl :: "lane \<Rightarrow> lane \<Rightarrow> lane" where
  "xorl (x # xs) (y # ys) = (x \<noteq> y) # xorl xs ys"
| "xorl xs [] = xs"
| "xorl [] ys = ys"

text \<open>The \<open>\<chi>\<close> step on lanes: \<open>a XOR (NOT b AND c)\<close>.\<close>

fun chil :: "lane \<Rightarrow> lane \<Rightarrow> lane \<Rightarrow> lane" where
  "chil (a # as) (b # bs) (c # cs) = (a \<noteq> (\<not> b \<and> c)) # chil as bs cs"
| "chil as bs cs = []"

definition rol64 :: "nat \<Rightarrow> lane \<Rightarrow> lane" where
  "rol64 r v = drop (64 - r) v @ take (64 - r) v"

definition xor5 :: "lane \<Rightarrow> lane \<Rightarrow> lane \<Rightarrow> lane \<Rightarrow> lane \<Rightarrow> lane" where
  "xor5 a b c d e = xorl (xorl (xorl (xorl a b) c) d) e"

definition theta_d :: "lane \<Rightarrow> lane \<Rightarrow> lane" where
  "theta_d cl cr = xorl cl (rol64 1 cr)"

text \<open>
  The state is 25 lanes; lane \<open>(x, y)\<close> is the element \<open>x + 5 * y\<close>. The five step
  mappings are written out lane by lane.
\<close>

fun theta_C :: "lane list \<Rightarrow> lane list" where
  "theta_C
    [a0, a1, a2, a3, a4, a5, a6, a7, a8, a9, a10, a11, a12, a13, a14, a15, a16, a17,
     a18, a19, a20, a21, a22, a23, a24] =
    [xor5 a0 a5 a10 a15 a20, xor5 a1 a6 a11 a16 a21, xor5 a2 a7 a12 a17 a22,
     xor5 a3 a8 a13 a18 a23, xor5 a4 a9 a14 a19 a24]"

fun theta_D :: "lane list \<Rightarrow> lane list" where
  "theta_D [c0, c1, c2, c3, c4] =
    [theta_d c4 c1, theta_d c0 c2, theta_d c1 c3, theta_d c2 c4, theta_d c3 c0]"

fun theta_apply :: "lane list \<Rightarrow> lane list \<Rightarrow> lane list" where
  "theta_apply [d0, d1, d2, d3, d4]
    [a0, a1, a2, a3, a4, a5, a6, a7, a8, a9, a10, a11, a12, a13, a14, a15, a16, a17,
     a18, a19, a20, a21, a22, a23, a24] =
    [xorl a0 d0, xorl a1 d1, xorl a2 d2, xorl a3 d3, xorl a4 d4, xorl a5 d0, xorl a6 d1,
     xorl a7 d2, xorl a8 d3, xorl a9 d4, xorl a10 d0, xorl a11 d1, xorl a12 d2,
     xorl a13 d3, xorl a14 d4, xorl a15 d0, xorl a16 d1, xorl a17 d2, xorl a18 d3,
     xorl a19 d4, xorl a20 d0, xorl a21 d1, xorl a22 d2, xorl a23 d3, xorl a24 d4]"

definition theta :: "lane list \<Rightarrow> lane list" where
  "theta A = theta_apply (theta_D (theta_C A)) A"

fun rho_pi :: "lane list \<Rightarrow> lane list" where
  "rho_pi
    [a0, a1, a2, a3, a4, a5, a6, a7, a8, a9, a10, a11, a12, a13, a14, a15, a16, a17,
     a18, a19, a20, a21, a22, a23, a24] =
    [rol64 0 a0, rol64 44 a6, rol64 43 a12, rol64 21 a18, rol64 14 a24, rol64 28 a3,
     rol64 20 a9, rol64 3 a10, rol64 45 a16, rol64 61 a22, rol64 1 a1, rol64 6 a7,
     rol64 25 a13, rol64 8 a19, rol64 18 a20, rol64 27 a4, rol64 36 a5, rol64 10 a11,
     rol64 15 a17, rol64 56 a23, rol64 62 a2, rol64 55 a8, rol64 39 a14, rol64 41 a15,
     rol64 2 a21]"

fun chi :: "lane list \<Rightarrow> lane list" where
  "chi
    [a0, a1, a2, a3, a4, a5, a6, a7, a8, a9, a10, a11, a12, a13, a14, a15, a16, a17,
     a18, a19, a20, a21, a22, a23, a24] =
    [chil a0 a1 a2, chil a1 a2 a3, chil a2 a3 a4, chil a3 a4 a0, chil a4 a0 a1,
     chil a5 a6 a7, chil a6 a7 a8, chil a7 a8 a9, chil a8 a9 a5, chil a9 a5 a6,
     chil a10 a11 a12, chil a11 a12 a13, chil a12 a13 a14, chil a13 a14 a10,
     chil a14 a10 a11, chil a15 a16 a17, chil a16 a17 a18, chil a17 a18 a19,
     chil a18 a19 a15, chil a19 a15 a16, chil a20 a21 a22, chil a21 a22 a23,
     chil a22 a23 a24, chil a23 a24 a20, chil a24 a20 a21]"

fun iota :: "lane \<Rightarrow> lane list \<Rightarrow> lane list" where
  "iota rc (a0 # A) = xorl a0 rc # A"
| "iota rc [] = []"

definition keccak_round :: "lane \<Rightarrow> lane list \<Rightarrow> lane list" where
  "keccak_round rc A = iota rc (chi (rho_pi (theta A)))"

fun bits_of :: "nat \<Rightarrow> int \<Rightarrow> bool list" where
  "bits_of 0 v = []"
| "bits_of (Suc n) v = odd v # bits_of n (v div 2)"

definition keccak_rc :: "int list" where
  "keccak_rc =
    [0x0000000000000001, 0x0000000000008082, 0x800000000000808A, 0x8000000080008000,
     0x000000000000808B, 0x0000000080000001, 0x8000000080008081, 0x8000000000008009,
     0x000000000000008A, 0x0000000000000088, 0x0000000080008009, 0x000000008000000A,
     0x000000008000808B, 0x800000000000008B, 0x8000000000008089, 0x8000000000008003,
     0x8000000000008002, 0x8000000000000080, 0x000000000000800A, 0x800000008000000A,
     0x8000000080008081, 0x8000000000008080, 0x0000000080000001, 0x8000000080008008]"

fun keccak_rounds :: "int list \<Rightarrow> lane list \<Rightarrow> lane list" where
  "keccak_rounds [] A = A"
| "keccak_rounds (rc # rcs) A = keccak_rounds rcs (keccak_round (bits_of 64 rc) A)"

definition keccak_f :: "lane list \<Rightarrow> lane list" where
  "keccak_f A = keccak_rounds keccak_rc A"

text \<open>
  The sponge: rate 1088 bits, the padding \<open>pad10*1\<close>, one permutation per block, and
  the first 256 bits of the state as the digest. A byte is read least significant bit
  first; the digest is returned as the \<^verbatim>\<open>uint256\<close> whose big-endian bytes it is.
\<close>

function chunks :: "nat \<Rightarrow> 'a list \<Rightarrow> 'a list list" where
  "chunks n xs = (if n = 0 \<or> xs = [] then [] else take n xs # chunks n (drop n xs))"
  by pat_completeness auto
termination
  by (relation "measure (\<lambda>(n, xs). length xs)") auto

definition pad101 :: "bool list \<Rightarrow> bool list" where
  "pad101 m = m @ [True] @ replicate ((1088 - (length m + 2) mod 1088) mod 1088) False @ [True]"

fun absorb :: "lane list \<Rightarrow> bool list list \<Rightarrow> lane list" where
  "absorb A [] = A"
| "absorb A (blk # blks) = absorb (keccak_f (map2 xorl A (chunks 64 blk @ replicate 8 []))) blks"

definition byte_bits :: "uint8 \<Rightarrow> bool list" where
  "byte_bits b = map (bit b) [0..<8]"

fun be_int :: "int \<Rightarrow> bool list \<Rightarrow> int" where
  "be_int acc [] = acc"
| "be_int acc (b # bs) = be_int (2 * acc + (if b then 1 else 0)) bs"

definition keccak256 :: "bytes \<Rightarrow> uint256" where
  "keccak256 m =
     (let A = absorb (replicate 25 (replicate 64 False))
                (chunks 1088 (pad101 (concat (map byte_bits m))));
          digest = take 256 (concat A)
      in word_of_int (be_int 0 (concat (map rev (chunks 8 digest)))))"

text \<open>
  \<^verbatim>\<open>abi.encodePacked(uint256, uint256)\<close>: the two 32-byte big-endian encodings, one
  after the other. \<open>matchId\<close> is the key both \<^verbatim>\<open>storeMatchResult\<close> and
  \<^verbatim>\<open>requestMatchDecryption\<close> compute:
  \<^verbatim>\<open>uint256(keccak256(abi.encodePacked(buyOrderId, sellOrderId)))\<close>.
\<close>

definition be_bytes32 :: "uint256 \<Rightarrow> bytes" where
  "be_bytes32 w = map (\<lambda>i. ucast (drop_bit (8 * i) w)) (rev [0..<32])"

definition abi_encodePacked :: "uint256 \<Rightarrow> uint256 \<Rightarrow> bytes" where
  "abi_encodePacked a b = be_bytes32 a @ be_bytes32 b"

definition matchId :: "uint256 \<Rightarrow> uint256 \<Rightarrow> uint256" where
  "matchId a b = keccak256 (abi_encodePacked a b)"

declare chunks.simps [simp del]

subsection \<open>abi.decode\<close>

text \<open>
  \<^verbatim>\<open>abi.decode(cleartexts, (uint32[]))\<close> as the Solidity compiler generates it: the data
  holds, in 32-byte big-endian words, the offset of the array, then at that offset the
  length \<open>n\<close> and the \<open>n\<close> elements. The decoder reverts (here \<open>None\<close>) when the data is
  shorter than one word, when the offset or the length exceeds \<open>2 ^ 64 - 1\<close>, when the
  length word or the elements do not lie within the data, and when an element is not a
  \<^verbatim>\<open>uint32\<close> (a word of \<open>2 ^ 32\<close> or more).
\<close>

fun be_nat :: "nat \<Rightarrow> bytes \<Rightarrow> nat" where
  "be_nat acc [] = acc"
| "be_nat acc (b # bs) = be_nat (256 * acc + unat b) bs"

definition abi_decode_uint32_array :: "bytes \<Rightarrow> uint32 list option" where
  "abi_decode_uint32_array d =
     (if length d < 32 then None
      else
        let offset = be_nat 0 (take 32 d)
        in if 2 ^ 64 \<le> offset \<or> length d \<le> offset + 31 then None
           else
             let n = be_nat 0 (take 32 (drop offset d))
             in if 2 ^ 64 \<le> n \<or> length d < offset + 32 + 32 * n then None
                else
                  let ws = map (be_nat 0) (chunks 32 (take (32 * n) (drop (offset + 32) d)))
                  in if list_all (\<lambda>w. w < 2 ^ 32) ws then Some (map of_nat ws) else None)"

subsection \<open>Order submission and the match stub\<close>

definition submitEncryptedOrder ::
  "address \<Rightarrow> uint256 \<Rightarrow> state \<Rightarrow> euint32 \<Rightarrow> euint32 \<Rightarrow> euint32 \<Rightarrow> error + state \<times> event list"
where
  "submitEncryptedOrder sender now s ePrice eAmount eType =
     (if orderCount s = - 1 then Inl Panic  \<comment> \<open>\<^verbatim>\<open>orderCount++\<close> overflows\<close>
      else
        let newId = orderCount s + 1;
            isBuy = FHE_eq eType (FHE_asEuint32 0);
            isSell = FHE_eq eType (FHE_asEuint32 1)
        in Inr (s\<lparr>orderCount := newId,
                  encryptedOrders := (encryptedOrders s)(newId :=
                    \<lparr>id_order = newId, trader = sender, encryptedPrice = ePrice,
                     encryptedAmount = eAmount, encryptedType = eType, timestamp = now,
                     isActive = True\<rparr>),
                  decryptedOrders := (decryptedOrders s)(newId :=
                    \<lparr>price = 0, amount = 0, orderType = 0, isRevealed = False\<rparr>),
                  encryptedBuyPrices := encryptedBuyPrices s @
                    [FHE_select isBuy ePrice (FHE_asEuint32 0)],
                  encryptedSellPrices := encryptedSellPrices s @
                    [FHE_select isSell ePrice (FHE_asEuint32 0)]\<rparr>,
                [OrderSubmitted newId now]))"

definition matchOrders :: "address \<Rightarrow> state \<Rightarrow> error + state \<times> event list" where
  "matchOrders sender s = Inr (s, [OrderMatched 0 0])"

subsection \<open>The matching evaluator\<close>

definition canMatchOrders :: "state \<Rightarrow> uint256 \<Rightarrow> uint256 \<Rightarrow> error + ebool" where
  "canMatchOrders s buyId sellId =
     (let buy = encryptedOrders s buyId;
          sell = encryptedOrders s sellId
      in if \<not> (isActive buy \<and> isActive sell) then Inl InactiveOrder
         else
           let isBuy = FHE_eq (encryptedType buy) (FHE_asEuint32 0);
               isSell = FHE_eq (encryptedType sell) (FHE_asEuint32 1);
               validTypes = FHE_and isBuy isSell;
               priceMatch = FHE_ge (encryptedPrice buy) (encryptedPrice sell);
               amountMatch = FHE_ge (encryptedAmount buy) (encryptedAmount sell)
           in Inr (FHE_and validTypes (FHE_and priceMatch amountMatch)))"

definition calculateExecutionPrice :: "state \<Rightarrow> uint256 \<Rightarrow> uint256 \<Rightarrow> euint32" where
  "calculateExecutionPrice s buyId sellId =
     (let buy = encryptedOrders s buyId;
          sell = encryptedOrders s sellId;
          sum = FHE_add (encryptedPrice buy) (encryptedPrice sell)
      in FHE_div sum (FHE_asEuint32 2))"

definition calculateExecutionAmount :: "state \<Rightarrow> uint256 \<Rightarrow> uint256 \<Rightarrow> euint32" where
  "calculateExecutionAmount s buyId sellId =
     (let buy = encryptedOrders s buyId;
          sell = encryptedOrders s sellId;
          buySmaller = FHE_lt (encryptedAmount buy) (encryptedAmount sell)
      in FHE_select buySmaller (encryptedAmount buy) (encryptedAmount sell))"

subsection \<open>Committing a match\<close>

definition storeMatchResult ::
  "address \<Rightarrow> state \<Rightarrow> uint256 \<Rightarrow> uint256 \<Rightarrow> euint32 \<Rightarrow> euint32 \<Rightarrow> error + state \<times> event list"
where
  "storeMatchResult sender s buyId sellId ePrice eAmount =
     (let mId = matchId buyId sellId;
          orders1 = (encryptedOrders s)(buyId := (encryptedOrders s buyId)\<lparr>isActive := False\<rparr>);
          orders2 = orders1(sellId := (orders1 sellId)\<lparr>isActive := False\<rparr>)
      in Inr (s\<lparr>matchResults := (matchResults s)(mId :=
                  \<lparr>buyOrderId = buyId, sellOrderId = sellId, matchPrice = ePrice,
                   matchAmount = eAmount, isComplete = True\<rparr>),
                encryptedOrders := orders2\<rparr>,
              [OrderMatched buyId sellId]))"

subsection \<open>The decryption coordinator\<close>

text \<open>
  \<^verbatim>\<open>FHE.requestDecryption\<close> hands the ciphertexts to the oracle and returns the request
  id the oracle chose: \<open>reqId\<close> is an argument of the model, and the ciphertexts handed
  over are returned beside the new state.
\<close>

definition requestOrderDecryption ::
  "address \<Rightarrow> state \<Rightarrow> uint256 \<Rightarrow> uint256 \<Rightarrow> error + state \<times> euint32 list"
where
  "requestOrderDecryption sender s orderId reqId =
     (if sender \<noteq> trader (encryptedOrders s orderId) then Inl Unauthorized
      else
        let order = encryptedOrders s orderId
        in if isRevealed (decryptedOrders s orderId) then Inl AlreadyRevealed
           else
             let ciphertexts = [encryptedPrice order, encryptedAmount order, encryptedType order]
             in Inr (s\<lparr>requestToOrderId := (requestToOrderId s)(reqId := orderId)\<rparr>,
                     ciphertexts))"

definition decryptOrder ::
  "env \<Rightarrow> address \<Rightarrow> state \<Rightarrow> uint256 \<Rightarrow> bytes \<Rightarrow> bytes \<Rightarrow> error + state \<times> event list"
where
  "decryptOrder E sender s requestId cleartexts proof =
     (let orderId = requestToOrderId s requestId
      in if orderId = 0 then Inl InvalidRequestId
         else
           let dOrder = decryptedOrders s orderId
           in if isRevealed dOrder then Inl AlreadyRevealed
              else if \<not> FHE_checkSignatures E requestId cleartexts proof
                then Inl ProofVerificationFailed
              else
                (case abi_decode E cleartexts of
                   None \<Rightarrow> Inl DecodeFailed
                 | Some results \<Rightarrow>
                     if length results < 3 then Inl Panic  \<comment> \<open>index out of bounds\<close>
                     else Inr (s\<lparr>decryptedOrders := (decryptedOrders s)(orderId :=
                                   dOrder\<lparr>price := results ! 0, amount := results ! 1,
                                     orderType := ucast (results ! 2),
                                     isRevealed := True\<rparr>)\<rparr>,
                               [OrderRevealed orderId])))"

definition requestMatchDecryption ::
  "address \<Rightarrow> state \<Rightarrow> uint256 \<Rightarrow> uint256 \<Rightarrow> uint256 \<Rightarrow> error + state \<times> euint32 list"
where
  "requestMatchDecryption sender s buyId sellId reqId =
     (let mId = matchId buyId sellId;
          result = matchResults s mId
      in if \<not> isComplete result then Inl MatchNotComplete
         else
           let ciphertexts = [matchPrice result, matchAmount result]
           in Inr (s\<lparr>requestToOrderId := (requestToOrderId s)(reqId := mId)\<rparr>,
                   ciphertexts))"

text \<open>
  The callback for a match: after the proof check and the decoding the body ends
  ("Store or emit decrypted match details. Implementation depends on specific
  requirements"): nothing is stored and nothing is emitted.
\<close>

definition decryptMatchResult ::
  "env \<Rightarrow> address \<Rightarrow> state \<Rightarrow> uint256 \<Rightarrow> bytes \<Rightarrow> bytes \<Rightarrow> error + state \<times> event list"
where
  "decryptMatchResult E sender s requestId cleartexts proof =
     (let mId = requestToOrderId s requestId
      in if mId = 0 then Inl InvalidRequestId
         else if \<not> FHE_checkSignatures E requestId cleartexts proof
           then Inl ProofVerificationFailed
         else
           (case abi_decode E cleartexts of
              None \<Rightarrow> Inl DecodeFailed
            | Some results \<Rightarrow> Inr (s, [])))"

subsection \<open>Best bid and ask\<close>

text \<open>
  The two \<^verbatim>\<open>for\<close> loops of \<^verbatim>\<open>findBestBidAsk\<close>, one function each: \<open>i\<close> is the loop index
  and the last argument the running best value.
\<close>

function bidLoop :: "state \<Rightarrow> nat \<Rightarrow> euint32 \<Rightarrow> euint32" where
  "bidLoop s i bestBid =
     (if i < length (encryptedBuyPrices s) then
        let active = FHE_asEbool (isActive (encryptedOrders s (of_nat (i + 1))));
            isBuy = FHE_eq (encryptedType (encryptedOrders s (of_nat (i + 1)))) (FHE_asEuint32 0);
            isBetterBid = FHE_gt (encryptedBuyPrices s ! i) bestBid;
            shouldUpdateBid = FHE_and isBetterBid (FHE_and active isBuy)
        in bidLoop s (i + 1) (FHE_select shouldUpdateBid (encryptedBuyPrices s ! i) bestBid)
      else bestBid)"
  by pat_completeness auto
termination
  by (relation "measure (\<lambda>(s, i, b). length (encryptedBuyPrices s) - i)") auto

function askLoop :: "state \<Rightarrow> nat \<Rightarrow> euint32 \<Rightarrow> euint32" where
  "askLoop s i bestAsk =
     (if i < length (encryptedSellPrices s) then
        let active = FHE_asEbool (isActive (encryptedOrders s (of_nat (i + 1))));
            isSell = FHE_eq (encryptedType (encryptedOrders s (of_nat (i + 1)))) (FHE_asEuint32 1);
            isBetterAsk = FHE_lt (encryptedSellPrices s ! i) bestAsk;
            shouldUpdateAsk = FHE_and isBetterAsk (FHE_and active isSell)
        in askLoop s (i + 1) (FHE_select shouldUpdateAsk (encryptedSellPrices s ! i) bestAsk)
      else bestAsk)"
  by pat_completeness auto
termination
  by (relation "measure (\<lambda>(s, i, b). length (encryptedSellPrices s) - i)") auto

declare bidLoop.simps [simp del] askLoop.simps [simp del]

definition findBestBidAsk :: "state \<Rightarrow> euint32 \<times> euint32" where
  "findBestBidAsk s =
     (bidLoop s 0 (FHE_asEuint32 0), askLoop s 0 (FHE_asEuint32 (- 1)))"

subsection \<open>Accessors and cancellation\<close>

definition getEncryptedOrder :: "state \<Rightarrow> uint256 \<Rightarrow> euint32 \<times> euint32 \<times> euint32 \<times> bool" where
  "getEncryptedOrder s orderId =
     (let order = encryptedOrders s orderId
      in (encryptedPrice order, encryptedAmount order, encryptedType order, isActive order))"

definition getDecryptedOrder ::
  "address \<Rightarrow> state \<Rightarrow> uint256 \<Rightarrow> error + uint32 \<times> uint32 \<times> uint8 \<times> bool"
where
  "getDecryptedOrder sender s orderId =
     (if sender \<noteq> trader (encryptedOrders s orderId) then Inl Unauthorized
      else
        let order = decryptedOrders s orderId
        in Inr (price order, amount order, orderType order, isRevealed order))"

definition cancelOrder :: "address \<Rightarrow> state \<Rightarrow> uint256 \<Rightarrow> error + state \<times> event list" where
  "cancelOrder sender s orderId =
     (if sender \<noteq> trader (encryptedOrders s orderId) then Inl Unauthorized
      else if \<not> isActive (encryptedOrders s orderId) then Inl NotActive
      else if orderId = 0 then Inl Panic  \<comment> \<open>\<^verbatim>\<open>orderId - 1\<close> underflows\<close>
      else
        let index = unat (orderId - 1);
            buys = (if index < length (encryptedBuyPrices s)
                    then (encryptedBuyPrices s)[index := FHE_asEuint32 0]
                    else encryptedBuyPrices s);
            sells = (if index < length (encryptedSellPrices s)
                     then (encryptedSellPrices s)[index := FHE_asEuint32 0]
                     else encryptedSellPrices s)
        in Inr (s\<lparr>encryptedOrders := (encryptedOrders s)(orderId :=
                    (encryptedOrders s orderId)\<lparr>isActive := False\<rparr>),
                  encryptedBuyPrices := buys, encryptedSellPrices := sells\<rparr>,
                []))"

subsection \<open>Reachable states\<close>

text \<open>
  The states of a deployed contract: the empty storage, and every state a successful
  call leads to. A call that reverts leaves the state as it was.
\<close>

inductive reachable :: "env \<Rightarrow> state \<Rightarrow> bool" for E :: env where
  r_init: "reachable E init_state"
| r_submit: "reachable E s \<Longrightarrow>
     submitEncryptedOrder sender now s ePrice eAmount eType = Inr (s', evs) \<Longrightarrow> reachable E s'"
| r_match: "reachable E s \<Longrightarrow> matchOrders sender s = Inr (s', evs) \<Longrightarrow> reachable E s'"
| r_store: "reachable E s \<Longrightarrow>
     storeMatchResult sender s buyId sellId ePrice eAmount = Inr (s', evs) \<Longrightarrow> reachable E s'"
| r_requestOrder: "reachable E s \<Longrightarrow>
     requestOrderDecryption sender s orderId reqId = Inr (s', cts) \<Longrightarrow> reachable E s'"
| r_decryptOrder: "reachable E s \<Longrightarrow>
     decryptOrder E sender s requestId cleartexts proof = Inr (s', evs) \<Longrightarrow> reachable E s'"
| r_cancel: "reachable E s \<Longrightarrow> cancelOrder sender s orderId = Inr (s', evs) \<Longrightarrow> reachable E s'"
| r_requestMatch: "reachable E s \<Longrightarrow>
     requestMatchDecryption sender s buyId sellId reqId = Inr (s', cts) \<Longrightarrow> reachable E s'"
| r_decryptMatch: "reachable E s \<Longrightarrow>
     decryptMatchResult E sender s requestId cleartexts proof = Inr (s', evs) \<Longrightarrow> reachable E s'"

subsection \<open>Notions the properties are stated with\<close>

text \<open>
  The invariant of the ledger and the book: the two book sequences are as long as the
  number of orders ever submitted, every active order has an id between 1 and
  \<open>orderCount\<close>, and its two book entries (at index id - 1) are the masked prices
  written at submission.
\<close>

definition book_inv :: "state \<Rightarrow> bool" where
  "book_inv s \<longleftrightarrow>
     length (encryptedBuyPrices s) = unat (orderCount s) \<and>
     length (encryptedSellPrices s) = unat (orderCount s) \<and>
     (\<forall>k. isActive (encryptedOrders s k) \<longrightarrow>
        k \<noteq> 0 \<and> k \<le> orderCount s \<and>
        encryptedBuyPrices s ! unat (k - 1) =
          FHE_select (FHE_eq (encryptedType (encryptedOrders s k)) (FHE_asEuint32 0))
            (encryptedPrice (encryptedOrders s k)) (FHE_asEuint32 0) \<and>
        encryptedSellPrices s ! unat (k - 1) =
          FHE_select (FHE_eq (encryptedType (encryptedOrders s k)) (FHE_asEuint32 1))
            (encryptedPrice (encryptedOrders s k)) (FHE_asEuint32 0))"


text \<open>
  The plaintext price of an order, the active orders of each side, and the same side
  tests by book position (\<open>j\<close> is the position of order \<open>j + 1\<close>).
\<close>

definition plainPrice :: "state \<Rightarrow> uint256 \<Rightarrow> uint32" where
  "plainPrice s k = plain32 (encryptedPrice (encryptedOrders s k))"

definition activeBuys :: "state \<Rightarrow> uint256 set" where
  "activeBuys s = {k. isActive (encryptedOrders s k)
     \<and> plain32 (encryptedType (encryptedOrders s k)) = 0}"

definition activeSells :: "state \<Rightarrow> uint256 set" where
  "activeSells s = {k. isActive (encryptedOrders s k)
     \<and> plain32 (encryptedType (encryptedOrders s k)) = 1}"

definition buyAt :: "state \<Rightarrow> nat \<Rightarrow> bool" where
  "buyAt s j \<longleftrightarrow> isActive (encryptedOrders s (of_nat (j + 1)))
     \<and> plain32 (encryptedType (encryptedOrders s (of_nat (j + 1)))) = 0"


definition sellAt :: "state \<Rightarrow> nat \<Rightarrow> bool" where
  "sellAt s j \<longleftrightarrow> isActive (encryptedOrders s (of_nat (j + 1)))
     \<and> plain32 (encryptedType (encryptedOrders s (of_nat (j + 1)))) = 1"

subsection \<open>A worked scenario\<close>

text \<open>
  The states of one run of the contract, used to instantiate the theorems: trader 10
  submits a buy order (price 2500, amount 2), trader 11 a sell order (price 2400,
  amount 2), trader 10 a second buy order at the extreme price 9999, which trader 10
  then cancels. \<open>demo_env\<close> is an environment in which the proof \<open>[1]\<close> verifies and
  the cleartexts are decoded by \<open>abi_decode_uint32_array\<close>.
\<close>

definition demo_env :: env where
  "demo_env = \<lparr>FHE_checkSignatures = (\<lambda>requestId cleartexts proof. proof = [1]),
     abi_decode = abi_decode_uint32_array\<rparr>"



definition demo_s1 :: state where
  "demo_s1 = init_state\<lparr>orderCount := 1,
     encryptedOrders := (encryptedOrders init_state)(1 :=
       \<lparr>id_order = 1, trader = 10, encryptedPrice = Euint32 2500, encryptedAmount = Euint32 2,
        encryptedType = Euint32 0, timestamp = 100, isActive = True\<rparr>),
     decryptedOrders := (decryptedOrders init_state)(1 :=
       \<lparr>price = 0, amount = 0, orderType = 0, isRevealed = False\<rparr>),
     encryptedBuyPrices := [Euint32 2500],
     encryptedSellPrices := [Euint32 0]\<rparr>"

definition demo_s2 :: state where
  "demo_s2 = demo_s1\<lparr>orderCount := 2,
     encryptedOrders := (encryptedOrders demo_s1)(2 :=
       \<lparr>id_order = 2, trader = 11, encryptedPrice = Euint32 2400, encryptedAmount = Euint32 2,
        encryptedType = Euint32 1, timestamp = 101, isActive = True\<rparr>),
     decryptedOrders := (decryptedOrders demo_s1)(2 :=
       \<lparr>price = 0, amount = 0, orderType = 0, isRevealed = False\<rparr>),
     encryptedBuyPrices := [Euint32 2500, Euint32 0],
     encryptedSellPrices := [Euint32 0, Euint32 2400]\<rparr>"

definition demo_s3 :: state where
  "demo_s3 = demo_s2\<lparr>orderCount := 3,
     encryptedOrders := (encryptedOrders demo_s2)(3 :=
       \<lparr>id_order = 3, trader = 10, encryptedPrice = Euint32 9999, encryptedAmount = Euint32 1,
        encryptedType = Euint32 0, timestamp = 102, isActive = True\<rparr>),
     decryptedOrders := (decryptedOrders demo_s2)(3 :=
       \<lparr>price = 0, amount = 0, orderType = 0, isRevealed = False\<rparr>),
     encryptedBuyPrices := [Euint32 2500, Euint32 0, Euint32 9999],
     encryptedSellPrices := [Euint32 0, Euint32 2400, Euint32 0]\<rparr>"

text \<open>Order 3 cancelled by its trader.\<close>

definition demo_s4 :: state where
  "demo_s4 = demo_s3\<lparr>
     encryptedOrders := (encryptedOrders demo_s3)(3 :=
       (encryptedOrders demo_s3 3)\<lparr>isActive := False\<rparr>),
     encryptedBuyPrices := [Euint32 2500, Euint32 0, Euint32 0],
     encryptedSellPrices := [Euint32 0, Euint32 2400, Euint32 0]\<rparr>"

text \<open>In \<open>demo_s2\<close>, trader 10 has asked for the reveal of order 1; the oracle chose request 5.\<close>

definition demo_r :: state where
  "demo_r = demo_s2\<lparr>requestToOrderId := (requestToOrderId demo_s2)(5 := 1)\<rparr>"

text \<open>The callback for request 5 has been applied.\<close>

definition demo_d :: state where
  "demo_d = demo_r\<lparr>decryptedOrders := (decryptedOrders demo_r)(1 :=
     \<lparr>price = 2500, amount = 2, orderType = 0, isRevealed = True\<rparr>)\<rparr>"

text \<open>
  In \<open>demo_s2\<close>, the match of orders 1 and 2 has been committed at price 2450 and amount
  2, and its reveal requested; the oracle chose request 7.
\<close>

definition demo_m :: state where
  "demo_m = demo_s2\<lparr>
     matchResults := (matchResults demo_s2)(matchId 1 2 :=
       \<lparr>buyOrderId = 1, sellOrderId = 2, matchPrice = Euint32 2450,
        matchAmount = Euint32 2, isComplete = True\<rparr>),
     encryptedOrders := (encryptedOrders demo_s2)
       (1 := (encryptedOrders demo_s2 1)\<lparr>isActive := False\<rparr>,
        2 := (encryptedOrders demo_s2 2)\<lparr>isActive := False\<rparr>),
     requestToOrderId := (requestToOrderId demo_s2)(7 := matchId 1 2)\<rparr>"

text \<open>Two orders at the price \<open>2 ^ 31\<close>, a buy and a sell.\<close>

definition demo_big :: state where
  "demo_big = init_state\<lparr>orderCount := 2,
     encryptedOrders := (encryptedOrders init_state)
       (1 := \<lparr>id_order = 1, trader = 10, encryptedPrice = Euint32 0x80000000,
              encryptedAmount = Euint32 1, encryptedType = Euint32 0, timestamp = 100,
              isActive = True\<rparr>,
        2 := \<lparr>id_order = 2, trader = 11, encryptedPrice = Euint32 0x80000000,
              encryptedAmount = Euint32 1, encryptedType = Euint32 1, timestamp = 101,
              isActive = True\<rparr>),
     decryptedOrders := (decryptedOrders init_state)
       (1 := \<lparr>price = 0, amount = 0, orderType = 0, isRevealed = False\<rparr>,
        2 := \<lparr>price = 0, amount = 0, orderType = 0, isRevealed = False\<rparr>),
     encryptedBuyPrices := [Euint32 0x80000000, Euint32 0],
     encryptedSellPrices := [Euint32 0, Euint32 0x80000000]\<rparr>"


section \<open>Properties\<close>

subsection \<open>The ledger invariant holds in every reachable state\<close>

lemma unat_succ: "(w :: uint256) \<noteq> - 1 \<Longrightarrow> unat (w + 1) = unat w + 1"
  by (metis Suc_eq_plus1 add.commute max_word_wrap unatSuc)

lemma unat_pred_less: "(k :: uint256) \<noteq> 0 \<Longrightarrow> k \<le> n \<Longrightarrow> unat (k - 1) < unat n"
proof -
  assume a: "k \<noteq> 0" "k \<le> n"
  then have "unat k \<noteq> 0" by (simp add: unat_eq_zero)
  moreover have "unat k \<le> unat n" using a by (simp add: word_le_nat_alt)
  ultimately show ?thesis using a by (simp add: unat_minus_one)
qed

lemma book_invD:
  "book_inv s \<Longrightarrow> isActive (encryptedOrders s k) \<Longrightarrow>
     k \<noteq> 0 \<and> k \<le> orderCount s \<and>
     encryptedBuyPrices s ! unat (k - 1) =
       FHE_select (FHE_eq (encryptedType (encryptedOrders s k)) (FHE_asEuint32 0))
         (encryptedPrice (encryptedOrders s k)) (FHE_asEuint32 0) \<and>
     encryptedSellPrices s ! unat (k - 1) =
       FHE_select (FHE_eq (encryptedType (encryptedOrders s k)) (FHE_asEuint32 1))
         (encryptedPrice (encryptedOrders s k)) (FHE_asEuint32 0)"
  unfolding book_inv_def by blast

lemma book_inv_len:
  "book_inv s \<Longrightarrow> length (encryptedBuyPrices s) = unat (orderCount s)
     \<and> length (encryptedSellPrices s) = unat (orderCount s)"
  unfolding book_inv_def by blast

lemma book_inv_init: "book_inv init_state"
  by (simp add: book_inv_def init_state_def zeroOrder_def)

lemma book_inv_submit:
  assumes "book_inv s" "submitEncryptedOrder sender now s ePrice eAmount eType = Inr (s', evs)"
  shows "book_inv s'"
proof -
  from assms(2) have nz: "orderCount s \<noteq> - 1"
    by (auto simp: submitEncryptedOrder_def split: if_splits)
  have un: "unat (orderCount s + 1) = unat (orderCount s) + 1"
    using nz by (rule unat_succ)
  have le: "orderCount s \<le> orderCount s + 1"
    using un by (simp add: word_le_nat_alt)
  have ne0: "orderCount s + 1 \<noteq> 0"
    using nz max_word_wrap by blast
  have oc: "orderCount s' = orderCount s + 1"
    and eo: "encryptedOrders s' = (encryptedOrders s)(orderCount s + 1 :=
        \<lparr>id_order = orderCount s + 1, trader = sender, encryptedPrice = ePrice,
         encryptedAmount = eAmount, encryptedType = eType, timestamp = now, isActive = True\<rparr>)"
    and bp: "encryptedBuyPrices s' = encryptedBuyPrices s @
        [FHE_select (FHE_eq eType (FHE_asEuint32 0)) ePrice (FHE_asEuint32 0)]"
    and sp: "encryptedSellPrices s' = encryptedSellPrices s @
        [FHE_select (FHE_eq eType (FHE_asEuint32 1)) ePrice (FHE_asEuint32 0)]"
    using assms(2) nz by (auto simp: submitEncryptedOrder_def Let_def)
  note len = book_inv_len[OF assms(1)]
  note old = book_invD[OF assms(1)]
  show ?thesis
    unfolding book_inv_def
  proof (intro conjI allI impI)
    show "length (encryptedBuyPrices s') = unat (orderCount s')"
      by (simp add: oc bp len un)
    show "length (encryptedSellPrices s') = unat (orderCount s')"
      by (simp add: oc sp len un)
  next
    fix k assume act: "isActive (encryptedOrders s' k)"
    have dich: "k = orderCount s + 1 \<or> (k \<noteq> orderCount s + 1 \<and> isActive (encryptedOrders s k))"
      using act by (simp add: eo split: if_splits)
    show "k \<noteq> 0"
    proof (cases "k = orderCount s + 1")
      case True
      then show ?thesis using ne0 by simp
    next
      case False
      with dich have "isActive (encryptedOrders s k)" by simp
      then show ?thesis using old[of k] by simp
    qed
    show "k \<le> orderCount s'"
    proof (cases "k = orderCount s + 1")
      case True
      then show ?thesis by (simp add: oc)
    next
      case False
      with dich have "isActive (encryptedOrders s k)" by simp
      then have "k \<le> orderCount s" using old[of k] by simp
      then show ?thesis unfolding oc using le by (rule order_trans)
    qed
    show "encryptedBuyPrices s' ! unat (k - 1) =
          FHE_select (FHE_eq (encryptedType (encryptedOrders s' k)) (FHE_asEuint32 0))
            (encryptedPrice (encryptedOrders s' k)) (FHE_asEuint32 0)"
    proof (cases "k = orderCount s + 1")
      case True
      then show ?thesis by (simp add: eo bp len nth_append)
    next
      case False
      with dich have a: "isActive (encryptedOrders s k)" by simp
      then have "unat (k - 1) < unat (orderCount s)"
        using old[of k] by (simp add: unat_pred_less)
      then show ?thesis using False old[OF a] by (simp add: eo bp len nth_append)
    qed
    show "encryptedSellPrices s' ! unat (k - 1) =
          FHE_select (FHE_eq (encryptedType (encryptedOrders s' k)) (FHE_asEuint32 1))
            (encryptedPrice (encryptedOrders s' k)) (FHE_asEuint32 0)"
    proof (cases "k = orderCount s + 1")
      case True
      then show ?thesis by (simp add: eo sp len nth_append)
    next
      case False
      with dich have a: "isActive (encryptedOrders s k)" by simp
      then have "unat (k - 1) < unat (orderCount s)"
        using old[of k] by (simp add: unat_pred_less)
      then show ?thesis using False old[OF a] by (simp add: eo sp len nth_append)
    qed
  qed
qed

lemma book_inv_cancel:
  assumes "book_inv s" "cancelOrder sender s orderId = Inr (s', evs)"
  shows "book_inv s'"
proof -
  have oc: "orderCount s' = orderCount s"
    and eo: "encryptedOrders s' = (encryptedOrders s)(orderId :=
        (encryptedOrders s orderId)\<lparr>isActive := False\<rparr>)"
    and bl: "length (encryptedBuyPrices s') = length (encryptedBuyPrices s)"
    and sl: "length (encryptedSellPrices s') = length (encryptedSellPrices s)"
    and bn: "\<And>i. i \<noteq> unat (orderId - 1) \<Longrightarrow> encryptedBuyPrices s' ! i = encryptedBuyPrices s ! i"
    and sn: "\<And>i. i \<noteq> unat (orderId - 1) \<Longrightarrow> encryptedSellPrices s' ! i = encryptedSellPrices s ! i"
    using assms(2) by (auto simp: cancelOrder_def Let_def split: if_splits)
  note len = book_inv_len[OF assms(1)]
  note old = book_invD[OF assms(1)]
  show ?thesis
    unfolding book_inv_def
  proof (intro conjI allI impI)
    show "length (encryptedBuyPrices s') = unat (orderCount s')"
      by (simp add: oc bl len)
    show "length (encryptedSellPrices s') = unat (orderCount s')"
      by (simp add: oc sl len)
  next
    fix k assume act: "isActive (encryptedOrders s' k)"
    then have ne: "k \<noteq> orderId" and a: "isActive (encryptedOrders s k)"
      by (auto simp: eo split: if_splits)
    have same: "encryptedOrders s' k = encryptedOrders s k"
      using ne by (simp add: eo)
    have idx: "unat (k - 1) \<noteq> unat (orderId - 1)"
      using ne by (simp add: word_unat_eq_iff[symmetric])
    show "k \<noteq> 0" using old[OF a] by simp
    show "k \<le> orderCount s'" using old[OF a] by (simp add: oc)
    show "encryptedBuyPrices s' ! unat (k - 1) =
          FHE_select (FHE_eq (encryptedType (encryptedOrders s' k)) (FHE_asEuint32 0))
            (encryptedPrice (encryptedOrders s' k)) (FHE_asEuint32 0)"
      using old[OF a] bn[OF idx] by (simp add: same)
    show "encryptedSellPrices s' ! unat (k - 1) =
          FHE_select (FHE_eq (encryptedType (encryptedOrders s' k)) (FHE_asEuint32 1))
            (encryptedPrice (encryptedOrders s' k)) (FHE_asEuint32 0)"
      using old[OF a] sn[OF idx] by (simp add: same)
  qed
qed

lemma book_inv_store:
  assumes "book_inv s" "storeMatchResult sender s buyId sellId ePrice eAmount = Inr (s', evs)"
  shows "book_inv s'"
proof -
  have oc: "orderCount s' = orderCount s"
    and eo: "\<And>k. isActive (encryptedOrders s' k) \<Longrightarrow> encryptedOrders s' k = encryptedOrders s k"
    and bp: "encryptedBuyPrices s' = encryptedBuyPrices s"
    and sp: "encryptedSellPrices s' = encryptedSellPrices s"
    using assms(2) by (auto simp: storeMatchResult_def Let_def split: if_splits)
  note len = book_inv_len[OF assms(1)]
  note old = book_invD[OF assms(1)]
  show ?thesis
    unfolding book_inv_def
  proof (intro conjI allI impI)
    show "length (encryptedBuyPrices s') = unat (orderCount s')"
      by (simp add: oc bp len)
    show "length (encryptedSellPrices s') = unat (orderCount s')"
      by (simp add: oc sp len)
  next
    fix k assume act: "isActive (encryptedOrders s' k)"
    note same = eo[OF act]
    from act have a: "isActive (encryptedOrders s k)" by (simp add: same)
    show "k \<noteq> 0" using old[OF a] by simp
    show "k \<le> orderCount s'" using old[OF a] by (simp add: oc)
    show "encryptedBuyPrices s' ! unat (k - 1) =
          FHE_select (FHE_eq (encryptedType (encryptedOrders s' k)) (FHE_asEuint32 0))
            (encryptedPrice (encryptedOrders s' k)) (FHE_asEuint32 0)"
      using old[OF a] by (simp add: same bp)
    show "encryptedSellPrices s' ! unat (k - 1) =
          FHE_select (FHE_eq (encryptedType (encryptedOrders s' k)) (FHE_asEuint32 1))
            (encryptedPrice (encryptedOrders s' k)) (FHE_asEuint32 0)"
      using old[OF a] by (simp add: same sp)
  qed
qed

text \<open>The decryption coordinator and the match stub leave the ledger and the book alone.\<close>

lemma book_inv_frame:
  assumes "book_inv s" "orderCount s' = orderCount s" "encryptedOrders s' = encryptedOrders s"
    "encryptedBuyPrices s' = encryptedBuyPrices s" "encryptedSellPrices s' = encryptedSellPrices s"
  shows "book_inv s'"
  using assms unfolding book_inv_def by simp

lemma requestOrderDecryption_frame:
  "requestOrderDecryption sender s orderId reqId = Inr (s', cts) \<Longrightarrow>
     s' = s\<lparr>requestToOrderId := (requestToOrderId s)(reqId := orderId)\<rparr>"
  by (auto simp: requestOrderDecryption_def Let_def split: if_splits)

lemma requestMatchDecryption_frame:
  "requestMatchDecryption sender s buyId sellId reqId = Inr (s', cts) \<Longrightarrow>
     s' = s\<lparr>requestToOrderId := (requestToOrderId s)(reqId := matchId buyId sellId)\<rparr>"
  by (auto simp: requestMatchDecryption_def Let_def split: if_splits)

lemma decryptOrder_frame:
  "decryptOrder E sender s requestId cleartexts proof = Inr (s', evs) \<Longrightarrow>
     \<exists>d. s' = s\<lparr>decryptedOrders := d\<rparr>"
  by (auto simp: decryptOrder_def Let_def split: if_splits option.splits)

lemma decryptMatchResult_frame:
  "decryptMatchResult E sender s requestId cleartexts proof = Inr (s', evs) \<Longrightarrow> s' = s \<and> evs = []"
  by (auto simp: decryptMatchResult_def Let_def split: if_splits option.splits)

lemma reachable_book_inv: "reachable E s \<Longrightarrow> book_inv s"
proof (induction rule: reachable.induct)
  case r_init
  show ?case by (rule book_inv_init)
next
  case (r_submit s sender now ePrice eAmount eType s' evs)
  then show ?case by (blast intro: book_inv_submit)
next
  case (r_match s sender s' evs)
  then show ?case by (simp add: matchOrders_def)
next
  case (r_store s sender buyId sellId ePrice eAmount s' evs)
  then show ?case by (blast intro: book_inv_store)
next
  case (r_requestOrder s sender orderId reqId s' cts)
  from requestOrderDecryption_frame[OF r_requestOrder(2)] r_requestOrder(3)
  show ?case by (auto intro: book_inv_frame)
next
  case (r_decryptOrder s sender requestId cleartexts "proof" s' evs)
  from decryptOrder_frame[OF r_decryptOrder(2)] r_decryptOrder(3)
  show ?case by (auto intro: book_inv_frame)
next
  case (r_cancel s sender orderId s' evs)
  then show ?case by (blast intro: book_inv_cancel)
next
  case (r_requestMatch s sender buyId sellId reqId s' cts)
  from requestMatchDecryption_frame[OF r_requestMatch(2)] r_requestMatch(3)
  show ?case by (auto intro: book_inv_frame)
next
  case (r_decryptMatch s sender requestId cleartexts "proof" s' evs)
  from decryptMatchResult_frame[OF r_decryptMatch(2)] r_decryptMatch(3)
  show ?case by simp
qed

subsection \<open>The two scans compute the extrema over the active orders of their side\<close>

lemma FHE_plain [simp]:
  "FHE_gt a b = Ebool (plain32 b < plain32 a)"
  "FHE_lt a b = Ebool (plain32 a < plain32 b)"
  "FHE_ge a b = Ebool (plain32 b \<le> plain32 a)"
  "FHE_eq a b = Ebool (plain32 a = plain32 b)"
  "FHE_add a b = Euint32 (plain32 a + plain32 b)"
  "FHE_div a b = Euint32 (plain32 a div plain32 b)"
  by (cases a; cases b; simp)+

lemma Max_insert_max:
  fixes a p :: "'a::linorder"
  assumes "finite S"
  shows "Max (insert a (insert p S)) = Max (insert (max a p) S)"
proof (cases "S = {}")
  case True
  then show ?thesis by (simp add: max.commute)
next
  case False
  then show ?thesis using assms by (simp add: max.assoc)
qed

lemma Min_insert_min:
  fixes a p :: "'a::linorder"
  assumes "finite S"
  shows "Min (insert a (insert p S)) = Min (insert (min a p) S)"
proof (cases "S = {}")
  case True
  then show ?thesis by (simp add: min.commute)
next
  case False
  then show ?thesis using assms by (simp add: min.assoc)
qed

lemma bidLoop_Max:
  assumes "\<And>j. i \<le> j \<Longrightarrow> j < length (encryptedBuyPrices s) \<Longrightarrow> buyAt s j \<Longrightarrow>
     plain32 (encryptedBuyPrices s ! j) = plain32 (encryptedPrice (encryptedOrders s (of_nat (j + 1))))"
  shows "plain32 (bidLoop s i acc) =
     Max (insert (plain32 acc)
       {plain32 (encryptedPrice (encryptedOrders s (of_nat (j + 1)))) | j.
          i \<le> j \<and> j < length (encryptedBuyPrices s) \<and> buyAt s j})"
  using assms
proof (induction s i acc rule: bidLoop.induct)
  case (1 s i bestBid)
  let ?n = "length (encryptedBuyPrices s)"
  let ?p = "\<lambda>j. plain32 (encryptedPrice (encryptedOrders s (of_nat (j + 1))))"
  let ?S = "\<lambda>i. {?p j | j. i \<le> j \<and> j < ?n \<and> buyAt s j}"
  show ?case
  proof (cases "i < ?n")
    case False
    then have "?S i = {}" by auto
    then have "Max (insert (plain32 bestBid) (?S i)) = plain32 bestBid"
      by (simp only: Max_singleton)
    moreover have "bidLoop s i bestBid = bestBid"
      using False by (simp add: bidLoop.simps)
    ultimately show ?thesis by (simp only:)
  next
    case True
    define acc' where "acc' = FHE_select
        (FHE_and (FHE_gt (encryptedBuyPrices s ! i) bestBid)
           (FHE_and (FHE_asEbool (isActive (encryptedOrders s (of_nat (i + 1)))))
              (FHE_eq (encryptedType (encryptedOrders s (of_nat (i + 1)))) (FHE_asEuint32 0))))
        (encryptedBuyPrices s ! i) bestBid"
    have step: "bidLoop s i bestBid = bidLoop s (i + 1) acc'"
      using True unfolding acc'_def by (subst bidLoop.simps) (simp add: Let_def)
    have fin: "finite (?S (i + 1))" by simp
    have IH: "plain32 (bidLoop s (i + 1) acc') = Max (insert (plain32 acc') (?S (i + 1)))"
      unfolding acc'_def
      by (rule "1.IH"[OF True refl refl refl refl]) (rule "1.prems", simp_all)
    have split: "?S i = (if buyAt s i then insert (?p i) (?S (i + 1)) else ?S (i + 1))"
    proof -
      have "\<And>j. (i \<le> j \<and> j < ?n \<and> buyAt s j) \<longleftrightarrow>
          (j = i \<and> buyAt s i) \<or> (i + 1 \<le> j \<and> j < ?n \<and> buyAt s j)"
        using True by (auto simp: le_less Suc_le_eq)
      then show ?thesis by auto
    qed
    show ?thesis
    proof (cases "buyAt s i")
      case False
      then have "plain32 acc' = plain32 bestBid"
        by (auto simp: buyAt_def acc'_def)
      moreover have "?S i = ?S (i + 1)"
        using False by (simp only: split if_False)
      ultimately show ?thesis by (simp only: step IH)
    next
      case b: True
      have eq: "plain32 (encryptedBuyPrices s ! i) = ?p i"
        using "1.prems"[OF le_refl True b] .
      have "plain32 acc' = max (plain32 bestBid) (?p i)"
        using b eq by (auto simp: buyAt_def max_def acc'_def)
      moreover have "?S i = insert (?p i) (?S (i + 1))"
        using b by (simp only: split if_True)
      ultimately show ?thesis
        by (simp only: step IH Max_insert_max[OF fin])
    qed
  qed
qed

lemma askLoop_Min:
  assumes "\<And>j. i \<le> j \<Longrightarrow> j < length (encryptedSellPrices s) \<Longrightarrow> sellAt s j \<Longrightarrow>
     plain32 (encryptedSellPrices s ! j) = plain32 (encryptedPrice (encryptedOrders s (of_nat (j + 1))))"
  shows "plain32 (askLoop s i acc) =
     Min (insert (plain32 acc)
       {plain32 (encryptedPrice (encryptedOrders s (of_nat (j + 1)))) | j.
          i \<le> j \<and> j < length (encryptedSellPrices s) \<and> sellAt s j})"
  using assms
proof (induction s i acc rule: askLoop.induct)
  case (1 s i bestAsk)
  let ?n = "length (encryptedSellPrices s)"
  let ?p = "\<lambda>j. plain32 (encryptedPrice (encryptedOrders s (of_nat (j + 1))))"
  let ?S = "\<lambda>i. {?p j | j. i \<le> j \<and> j < ?n \<and> sellAt s j}"
  show ?case
  proof (cases "i < ?n")
    case False
    then have "?S i = {}" by auto
    then have "Min (insert (plain32 bestAsk) (?S i)) = plain32 bestAsk"
      by (simp only: Min_singleton)
    moreover have "askLoop s i bestAsk = bestAsk"
      using False by (simp add: askLoop.simps)
    ultimately show ?thesis by (simp only:)
  next
    case True
    define acc' where "acc' = FHE_select
        (FHE_and (FHE_lt (encryptedSellPrices s ! i) bestAsk)
           (FHE_and (FHE_asEbool (isActive (encryptedOrders s (of_nat (i + 1)))))
              (FHE_eq (encryptedType (encryptedOrders s (of_nat (i + 1)))) (FHE_asEuint32 1))))
        (encryptedSellPrices s ! i) bestAsk"
    have step: "askLoop s i bestAsk = askLoop s (i + 1) acc'"
      using True unfolding acc'_def by (subst askLoop.simps) (simp add: Let_def)
    have fin: "finite (?S (i + 1))" by simp
    have IH: "plain32 (askLoop s (i + 1) acc') = Min (insert (plain32 acc') (?S (i + 1)))"
      unfolding acc'_def
      by (rule "1.IH"[OF True refl refl refl refl]) (rule "1.prems", simp_all)
    have split: "?S i = (if sellAt s i then insert (?p i) (?S (i + 1)) else ?S (i + 1))"
    proof -
      have "\<And>j. (i \<le> j \<and> j < ?n \<and> sellAt s j) \<longleftrightarrow>
          (j = i \<and> sellAt s i) \<or> (i + 1 \<le> j \<and> j < ?n \<and> sellAt s j)"
        using True by (auto simp: le_less Suc_le_eq)
      then show ?thesis by auto
    qed
    show ?thesis
    proof (cases "sellAt s i")
      case False
      then have "plain32 acc' = plain32 bestAsk"
        by (auto simp: sellAt_def acc'_def)
      moreover have "?S i = ?S (i + 1)"
        using False by (simp only: split if_False)
      ultimately show ?thesis by (simp only: step IH)
    next
      case b: True
      have eq: "plain32 (encryptedSellPrices s ! i) = ?p i"
        using "1.prems"[OF le_refl True b] .
      have "plain32 acc' = min (plain32 bestAsk) (?p i)"
        using b eq by (auto simp: sellAt_def min_def acc'_def)
      moreover have "?S i = insert (?p i) (?S (i + 1))"
        using b by (simp only: split if_True)
      ultimately show ?thesis
        by (simp only: step IH Min_insert_min[OF fin])
    qed
  qed
qed

lemma unat_of_nat_pred:
  assumes "j < unat (n :: uint256)"
  shows "unat (of_nat (j + 1) - 1 :: uint256) = j"
proof -
  have "unat n < 2 ^ LENGTH(256)" by (rule unsigned_less)
  then have "j < 2 ^ 256" using assms by simp
  then have "unat (of_nat j :: uint256) = j"
    by (simp add: unat_of_nat)
  then show ?thesis by simp
qed

lemma of_nat_unat_pred: "(k :: uint256) \<noteq> 0 \<Longrightarrow> of_nat (unat (k - 1) + 1) = k"
  by simp

lemma buyAt_set:
  assumes "book_inv s"
  shows "{plain32 (encryptedPrice (encryptedOrders s (of_nat (j + 1)))) | j.
            0 \<le> j \<and> j < length (encryptedBuyPrices s) \<and> buyAt s j}
         = plainPrice s ` activeBuys s"
proof (intro set_eqI iffI)
  fix x
  assume "x \<in> {plain32 (encryptedPrice (encryptedOrders s (of_nat (j + 1)))) | j.
            0 \<le> j \<and> j < length (encryptedBuyPrices s) \<and> buyAt s j}"
  then obtain j where "x = plainPrice s (of_nat (j + 1))" "buyAt s j"
    by (auto simp: plainPrice_def)
  then show "x \<in> plainPrice s ` activeBuys s"
    by (auto simp: activeBuys_def buyAt_def)
next
  fix x
  assume "x \<in> plainPrice s ` activeBuys s"
  then obtain k where k: "x = plainPrice s k" "isActive (encryptedOrders s k)"
      "plain32 (encryptedType (encryptedOrders s k)) = 0"
    by (auto simp: activeBuys_def)
  from book_invD[OF assms k(2)] have k0: "k \<noteq> 0" and kle: "k \<le> orderCount s" by simp_all
  have lt: "unat (k - 1) < length (encryptedBuyPrices s)"
    using unat_pred_less[OF k0 kle] book_inv_len[OF assms] by simp
  have rt: "of_nat (unat (k - 1) + 1) = k" using k0 by (rule of_nat_unat_pred)
  have "buyAt s (unat (k - 1))"
    unfolding buyAt_def rt using k by simp
  moreover have "x = plain32 (encryptedPrice (encryptedOrders s (of_nat (unat (k - 1) + 1))))"
    unfolding rt using k(1) by (simp add: plainPrice_def)
  ultimately show "x \<in> {plain32 (encryptedPrice (encryptedOrders s (of_nat (j + 1)))) | j.
            0 \<le> j \<and> j < length (encryptedBuyPrices s) \<and> buyAt s j}"
    using lt by blast
qed

lemma buyAt_entry:
  assumes "book_inv s" "j < length (encryptedBuyPrices s)" "buyAt s j"
  shows "plain32 (encryptedBuyPrices s ! j)
           = plain32 (encryptedPrice (encryptedOrders s (of_nat (j + 1))))"
proof -
  let ?k = "of_nat (j + 1) :: uint256"
  have act: "isActive (encryptedOrders s ?k)"
    and ty: "plain32 (encryptedType (encryptedOrders s ?k)) = 0"
    using assms(3) by (simp_all add: buyAt_def)
  have j: "unat (?k - 1) = j"
    using assms(2) book_inv_len[OF assms(1)] by (simp only: unat_of_nat_pred)
  from book_invD[OF assms(1) act]
  have "encryptedBuyPrices s ! unat (?k - 1) =
      FHE_select (FHE_eq (encryptedType (encryptedOrders s ?k)) (FHE_asEuint32 0))
        (encryptedPrice (encryptedOrders s ?k)) (FHE_asEuint32 0)"
    by simp
  then show ?thesis unfolding j using ty by simp
qed

lemma bestBid_Max:
  assumes "book_inv s"
  shows "bidLoop s 0 (FHE_asEuint32 0) = Euint32 (Max (insert 0 (plainPrice s ` activeBuys s)))"
proof -
  have "plain32 (bidLoop s 0 (FHE_asEuint32 0)) =
      Max (insert (plain32 (FHE_asEuint32 0))
        {plain32 (encryptedPrice (encryptedOrders s (of_nat (j + 1)))) | j.
            0 \<le> j \<and> j < length (encryptedBuyPrices s) \<and> buyAt s j})"
    by (rule bidLoop_Max) (rule buyAt_entry[OF assms])
  then have "plain32 (bidLoop s 0 (FHE_asEuint32 0)) = Max (insert 0 (plainPrice s ` activeBuys s))"
    by (simp only: buyAt_set[OF assms] FHE_asEuint32.simps euint32.sel)
  then show ?thesis by (cases "bidLoop s 0 (FHE_asEuint32 0)") simp
qed
lemma sellAt_set:
  assumes "book_inv s"
  shows "{plain32 (encryptedPrice (encryptedOrders s (of_nat (j + 1)))) | j.
            0 \<le> j \<and> j < length (encryptedSellPrices s) \<and> sellAt s j}
         = plainPrice s ` activeSells s"
proof (intro set_eqI iffI)
  fix x
  assume "x \<in> {plain32 (encryptedPrice (encryptedOrders s (of_nat (j + 1)))) | j.
            0 \<le> j \<and> j < length (encryptedSellPrices s) \<and> sellAt s j}"
  then obtain j where "x = plainPrice s (of_nat (j + 1))" "sellAt s j"
    by (auto simp: plainPrice_def)
  then show "x \<in> plainPrice s ` activeSells s"
    by (auto simp: activeSells_def sellAt_def)
next
  fix x
  assume "x \<in> plainPrice s ` activeSells s"
  then obtain k where k: "x = plainPrice s k" "isActive (encryptedOrders s k)"
      "plain32 (encryptedType (encryptedOrders s k)) = 1"
    by (auto simp: activeSells_def)
  from book_invD[OF assms k(2)] have k0: "k \<noteq> 0" and kle: "k \<le> orderCount s" by simp_all
  have lt: "unat (k - 1) < length (encryptedSellPrices s)"
    using unat_pred_less[OF k0 kle] book_inv_len[OF assms] by simp
  have rt: "of_nat (unat (k - 1) + 1) = k" using k0 by (rule of_nat_unat_pred)
  have "sellAt s (unat (k - 1))"
    unfolding sellAt_def rt using k by simp
  moreover have "x = plain32 (encryptedPrice (encryptedOrders s (of_nat (unat (k - 1) + 1))))"
    unfolding rt using k(1) by (simp add: plainPrice_def)
  ultimately show "x \<in> {plain32 (encryptedPrice (encryptedOrders s (of_nat (j + 1)))) | j.
            0 \<le> j \<and> j < length (encryptedSellPrices s) \<and> sellAt s j}"
    using lt by blast
qed

lemma sellAt_entry:
  assumes "book_inv s" "j < length (encryptedSellPrices s)" "sellAt s j"
  shows "plain32 (encryptedSellPrices s ! j)
           = plain32 (encryptedPrice (encryptedOrders s (of_nat (j + 1))))"
proof -
  let ?k = "of_nat (j + 1) :: uint256"
  have act: "isActive (encryptedOrders s ?k)"
    and ty: "plain32 (encryptedType (encryptedOrders s ?k)) = 1"
    using assms(3) by (simp_all add: sellAt_def)
  have j: "unat (?k - 1) = j"
    using assms(2) book_inv_len[OF assms(1)] by (simp only: unat_of_nat_pred)
  from book_invD[OF assms(1) act]
  have "encryptedSellPrices s ! unat (?k - 1) =
      FHE_select (FHE_eq (encryptedType (encryptedOrders s ?k)) (FHE_asEuint32 1))
        (encryptedPrice (encryptedOrders s ?k)) (FHE_asEuint32 0)"
    by simp
  then show ?thesis unfolding j using ty by simp
qed

lemma bestAsk_Min:
  assumes "book_inv s"
  shows "askLoop s 0 (FHE_asEuint32 (- 1)) = Euint32 (Min (insert (- 1) (plainPrice s ` activeSells s)))"
proof -
  have "plain32 (askLoop s 0 (FHE_asEuint32 (- 1))) =
      Min (insert (plain32 (FHE_asEuint32 (- 1)))
        {plain32 (encryptedPrice (encryptedOrders s (of_nat (j + 1)))) | j.
            0 \<le> j \<and> j < length (encryptedSellPrices s) \<and> sellAt s j})"
    by (rule askLoop_Min) (rule sellAt_entry[OF assms])
  then have "plain32 (askLoop s 0 (FHE_asEuint32 (- 1))) = Min (insert (- 1) (plainPrice s ` activeSells s))"
    by (simp only: sellAt_set[OF assms] FHE_asEuint32.simps euint32.sel)
  then show ?thesis by (cases "askLoop s 0 (FHE_asEuint32 (- 1))") simp
qed

subsection \<open>The scenario is a run of the contract\<close>

lemmas demo_defs = demo_s1_def demo_s2_def demo_s3_def demo_s4_def demo_r_def demo_d_def
  demo_m_def demo_big_def init_state_def zeroOrder_def zeroMatch_def zeroDecrypted_def

lemma demo_step1:
  "submitEncryptedOrder 10 100 init_state (Euint32 2500) (Euint32 2) (Euint32 0)
     = Inr (demo_s1, [OrderSubmitted 1 100])"
  unfolding submitEncryptedOrder_def Let_def by (simp add: demo_defs)

lemma demo_step2:
  "submitEncryptedOrder 11 101 demo_s1 (Euint32 2400) (Euint32 2) (Euint32 1)
     = Inr (demo_s2, [OrderSubmitted 2 101])"
  unfolding submitEncryptedOrder_def Let_def by (simp add: demo_defs)

lemma demo_step3:
  "submitEncryptedOrder 10 102 demo_s2 (Euint32 9999) (Euint32 1) (Euint32 0)
     = Inr (demo_s3, [OrderSubmitted 3 102])"
  unfolding submitEncryptedOrder_def Let_def by (simp add: demo_defs)

lemma demo_step4: "cancelOrder 10 demo_s3 3 = Inr (demo_s4, [])"
  unfolding cancelOrder_def Let_def by (simp add: demo_defs)




text \<open>Data shorter than one word does not decode.\<close>

lemma demo_decode_short: "abi_decode demo_env [9, 196, 2, 0] = None"
  unfolding demo_env_def abi_decode_uint32_array_def Let_def by simp



lemma demo_big_steps:
  "submitEncryptedOrder 10 100 init_state (Euint32 0x80000000) (Euint32 1) (Euint32 0)
     = Inr (s, evs) \<Longrightarrow>
   submitEncryptedOrder 11 101 s (Euint32 0x80000000) (Euint32 1) (Euint32 1)
     = Inr (demo_big, [OrderSubmitted 2 101])"
  unfolding submitEncryptedOrder_def Let_def by (auto simp add: demo_defs)

lemma demo_reach1: "reachable E demo_s1"
  by (rule r_submit[OF r_init demo_step1])

lemma demo_reach2: "reachable E demo_s2"
  by (rule r_submit[OF demo_reach1 demo_step2])

lemma demo_reach3: "reachable E demo_s3"
  by (rule r_submit[OF demo_reach2 demo_step3])

lemma demo_reach4: "reachable E demo_s4"
  by (rule r_cancel[OF demo_reach3 demo_step4])

subsection \<open>Cancellation\<close>

lemma cancelOrder_result:
  assumes "cancelOrder sender s orderId = Inr (s', evs)"
  shows "sender = trader (encryptedOrders s orderId)"
    and "isActive (encryptedOrders s orderId)"
    and "orderId \<noteq> 0"
    and "evs = []"
    and "s' = s\<lparr>encryptedOrders := (encryptedOrders s)(orderId :=
                  (encryptedOrders s orderId)\<lparr>isActive := False\<rparr>),
               encryptedBuyPrices :=
                 (if unat (orderId - 1) < length (encryptedBuyPrices s)
                  then (encryptedBuyPrices s)[unat (orderId - 1) := FHE_asEuint32 0]
                  else encryptedBuyPrices s),
               encryptedSellPrices :=
                 (if unat (orderId - 1) < length (encryptedSellPrices s)
                  then (encryptedSellPrices s)[unat (orderId - 1) := FHE_asEuint32 0]
                  else encryptedSellPrices s)\<rparr>"
  using assms unfolding cancelOrder_def Let_def by (simp_all split: if_splits)

lemma cancelOrder_active:
  assumes "cancelOrder sender s orderId = Inr (s', evs)"
  shows "activeBuys s' = activeBuys s - {orderId}"
    and "activeSells s' = activeSells s - {orderId}"
    and "plainPrice s' = plainPrice s"
proof -
  note s' = cancelOrder_result(5)[OF assms]
  show "activeBuys s' = activeBuys s - {orderId}"
    unfolding activeBuys_def s' by auto
  show "activeSells s' = activeSells s - {orderId}"
    unfolding activeSells_def s' by auto
  show "plainPrice s' = plainPrice s"
    unfolding plainPrice_def s' by (rule ext) simp
qed

text \<open>
  C5. For every order id and caller, in every reachable state: \<open>cancelOrder\<close> fails with
  \<open>Unauthorized\<close> unless the caller is the order's trader; for the trader it fails with
  \<open>NotActive\<close> if the order is already inactive; otherwise it succeeds, sets the order's
  \<open>isActive\<close> flag to false and overwrites both of the order's book entries, the one in
  the buy-price sequence and the one in the sell-price sequence (at index id - 1, which
  is within both sequences), with the encryption of zero. Nothing else changes and no
  event is emitted.
\<close>

theorem cancelOrder_spec:
  assumes "reachable E s"
  shows "(sender \<noteq> trader (encryptedOrders s orderId) \<longrightarrow>
            cancelOrder sender s orderId = Inl Unauthorized)
       \<and> (sender = trader (encryptedOrders s orderId)
            \<and> \<not> isActive (encryptedOrders s orderId) \<longrightarrow>
            cancelOrder sender s orderId = Inl NotActive)
       \<and> (sender = trader (encryptedOrders s orderId)
            \<and> isActive (encryptedOrders s orderId) \<longrightarrow>
            unat (orderId - 1) < length (encryptedBuyPrices s)
            \<and> unat (orderId - 1) < length (encryptedSellPrices s)
            \<and> cancelOrder sender s orderId =
                Inr (s\<lparr>encryptedOrders := (encryptedOrders s)(orderId :=
                          (encryptedOrders s orderId)\<lparr>isActive := False\<rparr>),
                        encryptedBuyPrices :=
                          (encryptedBuyPrices s)[unat (orderId - 1) := Euint32 0],
                        encryptedSellPrices :=
                          (encryptedSellPrices s)[unat (orderId - 1) := Euint32 0]\<rparr>,
                     []))"
proof (intro conjI impI)
  assume "sender \<noteq> trader (encryptedOrders s orderId)"
  then show "cancelOrder sender s orderId = Inl Unauthorized"
    by (simp add: cancelOrder_def)
next
  assume "sender = trader (encryptedOrders s orderId) \<and> \<not> isActive (encryptedOrders s orderId)"
  then show "cancelOrder sender s orderId = Inl NotActive"
    by (simp add: cancelOrder_def)
next
  assume a: "sender = trader (encryptedOrders s orderId) \<and> isActive (encryptedOrders s orderId)"
  have inv: "book_inv s" using assms by (rule reachable_book_inv)
  from book_invD[OF inv] a have nz: "orderId \<noteq> 0" and le: "orderId \<le> orderCount s"
    by simp_all
  have lt: "unat (orderId - 1) < unat (orderCount s)"
    using nz le by (rule unat_pred_less)
  show b: "unat (orderId - 1) < length (encryptedBuyPrices s)"
    using lt book_inv_len[OF inv] by simp
  show c: "unat (orderId - 1) < length (encryptedSellPrices s)"
    using lt book_inv_len[OF inv] by simp
  show "cancelOrder sender s orderId =
      Inr (s\<lparr>encryptedOrders := (encryptedOrders s)(orderId :=
                (encryptedOrders s orderId)\<lparr>isActive := False\<rparr>),
              encryptedBuyPrices := (encryptedBuyPrices s)[unat (orderId - 1) := Euint32 0],
              encryptedSellPrices := (encryptedSellPrices s)[unat (orderId - 1) := Euint32 0]\<rparr>,
           [])"
    unfolding cancelOrder_def Let_def using a nz b c by simp
qed

theorem cancelOrder_spec_witness:
  "cancelOrder 11 demo_s3 3 = Inl Unauthorized
   \<and> cancelOrder 10 demo_s4 3 = Inl NotActive
   \<and> cancelOrder 10 demo_s3 3 = Inr (demo_s4, [])
   \<and> encryptedBuyPrices demo_s4 ! 2 = Euint32 0
   \<and> encryptedSellPrices demo_s4 ! 2 = Euint32 0
   \<and> \<not> isActive (encryptedOrders demo_s4 3)"
  using cancelOrder_spec[OF demo_reach3, of 11 3] cancelOrder_spec[OF demo_reach4, of 10 3]
    cancelOrder_spec[OF demo_reach3, of 10 3]
  by (simp add: demo_defs)

subsection \<open>Best bid and ask\<close>

lemma demo_bidask3: "findBestBidAsk demo_s3 = (Euint32 9999, Euint32 2400)"
  unfolding findBestBidAsk_def
  by (simp add: bidLoop.simps askLoop.simps Let_def demo_defs)

lemma demo_bidask4: "findBestBidAsk demo_s4 = (Euint32 2500, Euint32 2400)"
  unfolding findBestBidAsk_def
  by (simp add: bidLoop.simps askLoop.simps Let_def demo_defs)

text \<open>
  C8. In every reachable state, the pair returned by \<open>findBestBidAsk\<close> is influenced
  only by the active orders of the matching side: the best bid is the encryption of the
  maximum of zero and the prices of the active buy orders, the best ask the encryption of
  the minimum of \<open>2 ^ 32 - 1\<close> (written \<open>- 1\<close>) and the prices of the active sell
  orders. A cancelled order, whatever its price, does not influence the extrema: after a
  successful \<open>cancelOrder\<close> both are the extrema of the other active orders, as if the
  cancelled order had not been there.
\<close>

theorem findBestBidAsk_active_extrema:
  assumes "reachable E s"
  shows "findBestBidAsk s =
           (Euint32 (Max (insert 0 (plainPrice s ` activeBuys s))),
            Euint32 (Min (insert (- 1) (plainPrice s ` activeSells s))))
       \<and> (cancelOrder sender s orderId = Inr (s', evs) \<longrightarrow>
            findBestBidAsk s' =
              (Euint32 (Max (insert 0 (plainPrice s ` (activeBuys s - {orderId})))),
               Euint32 (Min (insert (- 1) (plainPrice s ` (activeSells s - {orderId}))))))"
proof (intro conjI impI)
  have inv: "book_inv s" using assms by (rule reachable_book_inv)
  show "findBestBidAsk s =
           (Euint32 (Max (insert 0 (plainPrice s ` activeBuys s))),
            Euint32 (Min (insert (- 1) (plainPrice s ` activeSells s))))"
    unfolding findBestBidAsk_def by (simp only: bestBid_Max[OF inv] bestAsk_Min[OF inv])
next
  assume c: "cancelOrder sender s orderId = Inr (s', evs)"
  have "reachable E s'" using assms c by (rule r_cancel)
  then have inv': "book_inv s'" by (rule reachable_book_inv)
  show "findBestBidAsk s' =
              (Euint32 (Max (insert 0 (plainPrice s ` (activeBuys s - {orderId})))),
               Euint32 (Min (insert (- 1) (plainPrice s ` (activeSells s - {orderId})))))"
    unfolding findBestBidAsk_def
    by (simp only: bestBid_Max[OF inv'] bestAsk_Min[OF inv'] cancelOrder_active[OF c])
qed

theorem findBestBidAsk_active_extrema_witness:
  "Max (insert 0 (plainPrice demo_s3 ` activeBuys demo_s3)) = 9999
   \<and> Min (insert (- 1) (plainPrice demo_s3 ` activeSells demo_s3)) = 2400
   \<and> Max (insert 0 (plainPrice demo_s3 ` (activeBuys demo_s3 - {3}))) = 2500
   \<and> Min (insert (- 1) (plainPrice demo_s3 ` (activeSells demo_s3 - {3}))) = 2400"
  using findBestBidAsk_active_extrema[OF demo_reach3, of 10 3 demo_s4 "[]"]
  by (simp add: demo_bidask3 demo_bidask4 demo_step4)

subsection \<open>Revealing a cancelled order\<close>

text \<open>
  C9. For every order that its trader has cancelled and whose shadow is not yet revealed,
  a following \<open>requestOrderDecryption\<close> by that trader succeeds, whatever request id the
  oracle returns: the request table maps that id to the order, and the order's three
  ciphertexts are handed to the oracle. The order's \<open>isActive\<close> flag is not read.
\<close>

theorem requestOrderDecryption_after_cancel:
  assumes "cancelOrder sender s orderId = Inr (s', evs)"
    and "\<not> isRevealed (decryptedOrders s orderId)"
  shows "requestOrderDecryption sender s' orderId reqId =
     Inr (s'\<lparr>requestToOrderId := (requestToOrderId s')(reqId := orderId)\<rparr>,
          [encryptedPrice (encryptedOrders s orderId),
           encryptedAmount (encryptedOrders s orderId),
           encryptedType (encryptedOrders s orderId)])"
proof -
  note r = cancelOrder_result[OF assms(1)]
  have "trader (encryptedOrders s' orderId) = sender"
    and "decryptedOrders s' orderId = decryptedOrders s orderId"
    and "encryptedPrice (encryptedOrders s' orderId) = encryptedPrice (encryptedOrders s orderId)"
    and "encryptedAmount (encryptedOrders s' orderId) = encryptedAmount (encryptedOrders s orderId)"
    and "encryptedType (encryptedOrders s' orderId) = encryptedType (encryptedOrders s orderId)"
    using r(1) by (simp_all add: r(5))
  then show ?thesis
    unfolding requestOrderDecryption_def Let_def using assms(2) by simp
qed

theorem requestOrderDecryption_after_cancel_witness:
  "cancelOrder 10 demo_s3 3 = Inr (demo_s4, [])
   \<and> \<not> isRevealed (decryptedOrders demo_s3 3)
   \<and> \<not> isActive (encryptedOrders demo_s4 3)
   \<and> requestOrderDecryption 10 demo_s4 3 8 =
       Inr (demo_s4\<lparr>requestToOrderId := (requestToOrderId demo_s4)(8 := 3)\<rparr>,
            [Euint32 9999, Euint32 1, Euint32 0])"
proof -
  have r: "\<not> isRevealed (decryptedOrders demo_s3 3)"
    by (simp add: demo_defs)
  show ?thesis
    using requestOrderDecryption_after_cancel[OF demo_step4 r, of 8] demo_step4 r
    by (simp add: demo_defs)
qed

subsection \<open>The match stub\<close>

text \<open>
  C10. For every state and every caller, \<open>matchOrders\<close> succeeds, returns the state it
  was given (so \<open>orderCount\<close>, every order record, every shadow, both book sequences,
  every match record and the request table are the same before and after) and emits
  exactly one event, \<open>OrderMatched 0 0\<close>, which names no real pair of orders.
\<close>

theorem matchOrders_frame:
  "matchOrders sender s = Inr (s, [OrderMatched 0 0])"
  by (simp add: matchOrders_def)

subsection \<open>Match compatibility\<close>

text \<open>
  C6. For every pair of order ids, \<open>canMatchOrders\<close> fails with \<open>InactiveOrder\<close> if
  either referenced order is inactive; otherwise it returns the encryption of the
  conjunction of four predicates on the plaintexts: the buy order's side is buy (0), the
  sell order's side is sell (1), the buy price is at least the sell price, and the buy
  amount is at least the sell amount.
\<close>

theorem canMatchOrders_spec:
  "canMatchOrders s buyId sellId =
     (if isActive (encryptedOrders s buyId) \<and> isActive (encryptedOrders s sellId) then
        Inr (Ebool (plain32 (encryptedType (encryptedOrders s buyId)) = 0
                  \<and> plain32 (encryptedType (encryptedOrders s sellId)) = 1
                  \<and> plain32 (encryptedPrice (encryptedOrders s buyId))
                      \<ge> plain32 (encryptedPrice (encryptedOrders s sellId))
                  \<and> plain32 (encryptedAmount (encryptedOrders s buyId))
                      \<ge> plain32 (encryptedAmount (encryptedOrders s sellId))))
      else Inl InactiveOrder)"
proof -
  obtain bt where bt: "encryptedType (encryptedOrders s buyId) = Euint32 bt"
    by (cases "encryptedType (encryptedOrders s buyId)")
  obtain st where st: "encryptedType (encryptedOrders s sellId) = Euint32 st"
    by (cases "encryptedType (encryptedOrders s sellId)")
  obtain bp where bp: "encryptedPrice (encryptedOrders s buyId) = Euint32 bp"
    by (cases "encryptedPrice (encryptedOrders s buyId)")
  obtain sp where sp: "encryptedPrice (encryptedOrders s sellId) = Euint32 sp"
    by (cases "encryptedPrice (encryptedOrders s sellId)")
  obtain ba where ba: "encryptedAmount (encryptedOrders s buyId) = Euint32 ba"
    by (cases "encryptedAmount (encryptedOrders s buyId)")
  obtain sa where sa: "encryptedAmount (encryptedOrders s sellId) = Euint32 sa"
    by (cases "encryptedAmount (encryptedOrders s sellId)")
  show ?thesis
    by (simp add: canMatchOrders_def Let_def bt st bp sp ba sa)
qed

subsection \<open>The match-record key\<close>

text \<open>
  Two values of the hash: the published digest of the empty string, and the key of the
  pair (1, 2).
\<close>

lemma keccak256_empty:
  "keccak256 [] = 0xc5d2460186f7233c927e7db2dcc703c0e500b653ca82273b7bfad8045d85a470"
  by code_simp

lemma matchId_1_2:
  "matchId 1 2 = 0xe90b7bceb6e7df5418fb78d8ee546e97c83a08bbccc01a0644d599ccd2a7c2e0"
  by code_simp

lemma matchId_2_1:
  "matchId 2 1 = 0xd9d16d34ffb15ba3a3d852f0d403e2ce1d691fb54de27ac87cd2f993f3ec330f"
  by code_simp


lemma be_bytes32_inj:
  assumes "be_bytes32 a = be_bytes32 b"
  shows "a = b"
proof (rule bit_word_eqI)
  fix n
  assume n: "n < LENGTH(256)"
  from assms have "\<forall>i \<in> set (rev [0..<32]).
      (ucast (drop_bit (8 * i) a) :: uint8) = ucast (drop_bit (8 * i) b)"
    unfolding be_bytes32_def by (simp only: map_eq_conv)
  moreover have "n div 8 \<in> set (rev [0..<32])" using n by simp
  ultimately have e: "(ucast (drop_bit (8 * (n div 8)) a) :: uint8)
      = ucast (drop_bit (8 * (n div 8)) b)"
    by blast
  have "bit a n = bit (ucast (drop_bit (8 * (n div 8)) a) :: uint8) (n mod 8)"
    by (simp add: bit_ucast_iff bit_drop_bit_eq)
  also have "\<dots> = bit (ucast (drop_bit (8 * (n div 8)) b) :: uint8) (n mod 8)"
    by (simp only: e)
  also have "\<dots> = bit b n"
    by (simp add: bit_ucast_iff bit_drop_bit_eq)
  finally show "bit a n = bit b n" .
qed

lemma length_be_bytes32: "length (be_bytes32 w) = 32"
  by (simp add: be_bytes32_def)

lemma abi_encodePacked_inj:
  "abi_encodePacked a b = abi_encodePacked a' b' \<longleftrightarrow> a = a' \<and> b = b'"
  unfolding abi_encodePacked_def
  by (auto simp: length_be_bytes32 dest: be_bytes32_inj)

text \<open>
  C1 (amended). The match-record key is a function of the ordered pair
  (buyOrderId, sellOrderId): \<open>storeMatchResult\<close> and \<open>requestMatchDecryption\<close> compute
  the same \<open>matchId\<close>, the hash of the two ids packed in the order given, so a match
  committed for (a, b) is the record a reveal request for (a, b) finds: the request
  succeeds, hands the record's two ciphertexts to the oracle and files the request under
  that key. The key is not invariant to the order of the arguments: the byte strings
  hashed for (a, b) and for (b, a) are the same only when a = b.
\<close>

theorem matchId_ordered_pair:
  "(\<exists>s'. storeMatchResult sender s buyId sellId ePrice eAmount
            = Inr (s', [OrderMatched buyId sellId])
        \<and> matchResults s' (matchId buyId sellId)
            = \<lparr>buyOrderId = buyId, sellOrderId = sellId, matchPrice = ePrice,
               matchAmount = eAmount, isComplete = True\<rparr>
        \<and> requestMatchDecryption sender' s' buyId sellId reqId
            = Inr (s'\<lparr>requestToOrderId := (requestToOrderId s')(reqId := matchId buyId sellId)\<rparr>,
                   [ePrice, eAmount]))
   \<and> (abi_encodePacked buyId sellId = abi_encodePacked sellId buyId) = (buyId = sellId)"
proof (intro conjI)
  show "\<exists>s'. storeMatchResult sender s buyId sellId ePrice eAmount
            = Inr (s', [OrderMatched buyId sellId])
        \<and> matchResults s' (matchId buyId sellId)
            = \<lparr>buyOrderId = buyId, sellOrderId = sellId, matchPrice = ePrice,
               matchAmount = eAmount, isComplete = True\<rparr>
        \<and> requestMatchDecryption sender' s' buyId sellId reqId
            = Inr (s'\<lparr>requestToOrderId := (requestToOrderId s')(reqId := matchId buyId sellId)\<rparr>,
                   [ePrice, eAmount])"
    unfolding storeMatchResult_def requestMatchDecryption_def Let_def by simp
  show "(abi_encodePacked buyId sellId = abi_encodePacked sellId buyId) = (buyId = sellId)"
    by (auto simp: abi_encodePacked_inj)
qed

text \<open>
  The claim as stated fails: the pair (1, 2) and the pair (2, 1) have different keys.
\<close>

theorem matchId_not_symmetric: "matchId 1 2 \<noteq> matchId 2 1"
  by (simp add: matchId_1_2 matchId_2_1)

subsection \<open>The decryption callbacks\<close>

















subsection \<open>The execution price\<close>

lemma calculateExecutionPrice_plain:
  "plain32 (calculateExecutionPrice s buyId sellId)
     = (plain32 (encryptedPrice (encryptedOrders s buyId))
        + plain32 (encryptedPrice (encryptedOrders s sellId))) div 2"
  unfolding calculateExecutionPrice_def Let_def by simp

lemma calculateExecutionPrice_midpoint:
  assumes "unat (plain32 (encryptedPrice (encryptedOrders s buyId)))
         + unat (plain32 (encryptedPrice (encryptedOrders s sellId))) < 2 ^ 32"
  shows "unat (plain32 (calculateExecutionPrice s buyId sellId))
     = (unat (plain32 (encryptedPrice (encryptedOrders s buyId)))
        + unat (plain32 (encryptedPrice (encryptedOrders s sellId)))) div 2"
proof -
  let ?a = "plain32 (encryptedPrice (encryptedOrders s buyId))"
  let ?b = "plain32 (encryptedPrice (encryptedOrders s sellId))"
  have "unat (?a + ?b) = unat ?a + unat ?b"
    using assms unat_add_lem[of ?a ?b] by simp
  then show ?thesis
    by (simp add: calculateExecutionPrice_plain unat_div)
qed

lemma demo_midpoint: "calculateExecutionPrice demo_s2 1 2 = Euint32 2450"
  unfolding calculateExecutionPrice_def Let_def by (simp add: demo_defs)

text \<open>
  C7. At two orders priced \<open>2 ^ 31\<close> the midpoint is \<open>2 ^ 31\<close>, but the 32-bit sum wraps
  to zero and \<open>calculateExecutionPrice\<close> returns the encryption of zero.
\<close>

theorem calculateExecutionPrice_wraps:
  "plain32 (encryptedPrice (encryptedOrders demo_big 1)) = 2147483648
   \<and> plain32 (encryptedPrice (encryptedOrders demo_big 2)) = 2147483648
   \<and> calculateExecutionPrice demo_big 1 2 = Euint32 0"
  unfolding calculateExecutionPrice_def Let_def by (simp add: demo_defs)

end
